theory Spec2Isabelle
  imports Complex_Main "HOL-Library.AList" "HOL-Library.Multiset"
begin

section \<open>Data model (src/types.ts)\<close>

text \<open>
  JavaScript numbers that carry weights, repetitions and volumes are modelled as
  \<^typ>\<open>real\<close>, and their sums and comparisons are taken exactly; the one-rep-max
  estimate is evaluated as the engine evaluates it, every operation rounded to the
  nearest binary64 value (see the section on numbers).  Millisecond timestamps and the
  set index of a mutator are \<^typ>\<open>int\<close>; counters are \<^typ>\<open>nat\<close>.  \<open>targetSets\<close>
  is a set count, a natural number.
  An object used as a dictionary (\<open>{[exerciseId: string]: SetLog[]}\<close>) is an association
  list in the object's own property order: \<^const>\<open>map_of\<close> reads a key,
  \<^const>\<open>AList.update\<close> overwrites a key in place or appends a new one, as the spread
  \<open>{...obj, [k]: v}\<close> does for the identifier-like keys the application generates.
\<close>

record SetLog =
  sl_id :: string
  reps :: real
  weight :: real
  completed :: bool

record Exercise =
  ex_id :: string
  ex_name :: string
  targetSets :: nat
  targetReps :: string
  ex_notes :: "string option"

record WorkoutDay =
  day_id :: string
  day_name :: string
  day_exercises :: "Exercise list"

record TrainingPlan =
  plan_id :: string
  plan_name :: string
  description :: string
  days :: "WorkoutDay list"
  isAiGenerated :: "bool option"
  createdAt :: int

text \<open>
  \<open>ActiveSession\<close>.  The type of the arrays is a parameter: a session as the interface
  declares it holds lists of \<open>SetLog\<close> objects; what an indexed write outside an
  array leaves behind is a \<open>js_array\<close> (see the session mutators).
\<close>

record 'a Session =
  session_id :: string
  planId :: string
  dayId :: string
  startTime :: int
  exercises :: "(string \<times> 'a) list"

type_synonym ActiveSession = "SetLog list Session"

text \<open>The anonymous element type of \<open>WorkoutLogDetail.sets\<close>.\<close>

record LoggedSet =
  lg_weight :: real
  lg_reps :: real
  lg_completed :: bool

record WorkoutLogDetail =
  name :: string
  sets :: "LoggedSet list"

record WorkoutHistory =
  wh_id :: string
  date :: int
  planName :: string
  dayName :: string
  durationSeconds :: int
  totalVolume :: real
  exercisesCompleted :: nat
  wh_exercises :: "WorkoutLogDetail list option"

datatype AppView = DASHBOARD | PLANS | ACTIVE_WORKOUT | STATS

text \<open>The part of the state of \<open>App\<close> that the finish handler reads and writes.\<close>

record AppState =
  view :: AppView
  history :: "WorkoutHistory list"
  activePlan :: "TrainingPlan option"
  activeDayId :: "string option"

datatype js_error = TypeError

section \<open>Session finalizer (src/App.tsx, handleFinishWorkout)\<close>

text \<open>\<open>day.exercises.find(e => e.id === exId)\<close>, then the name or the fallback literal.\<close>

definition exerciseNameOf :: "WorkoutDay \<Rightarrow> string \<Rightarrow> string" where
  "exerciseNameOf day exId =
     (case find (\<lambda>e. ex_id e = exId) (day_exercises day) of
        Some exerciseDef \<Rightarrow> ex_name exerciseDef
      | None \<Rightarrow> ''Unknown Exercise'')"

definition loggedSet :: "SetLog \<Rightarrow> LoggedSet" where
  "loggedSet s = \<lparr>lg_weight = weight s, lg_reps = reps s, lg_completed = completed s\<rparr>"

text \<open>
  One iteration of \<open>Object.entries(session.exercises).forEach\<close>; the accumulator is the
  triple of the mutable locals \<open>volume\<close>, \<open>exercisesDone\<close>, \<open>detailedExercises\<close>.
\<close>

definition finishStep ::
  "WorkoutDay \<Rightarrow> real \<times> nat \<times> WorkoutLogDetail list \<Rightarrow> string \<times> SetLog list
     \<Rightarrow> real \<times> nat \<times> WorkoutLogDetail list" where
  "finishStep day acc entry =
     (case acc of (volume, exercisesDone, detailedExercises) \<Rightarrow>
      case entry of (exId, ss) \<Rightarrow>
        let exerciseName = exerciseNameOf day exId;
            completedSets = filter completed ss
        in if length completedSets > 0
           then (foldl (\<lambda>v s. v + weight s * reps s) volume completedSets,
                 exercisesDone + 1,
                 detailedExercises @ [\<lparr>name = exerciseName, sets = map loggedSet completedSets\<rparr>])
           else (volume, exercisesDone, detailedExercises))"

text \<open>
  The record built by the handler, or \<open>None\<close> on one of its two early returns.
  \<open>uuid\<close> is the result of \<open>crypto.randomUUID()\<close>; \<open>now1\<close> and \<open>now2\<close> are the two
  readings of \<open>Date.now()\<close>.  \<open>!activeDayId\<close> is also true of the empty string.
\<close>

definition finishedRecord ::
  "AppState \<Rightarrow> ActiveSession \<Rightarrow> string \<Rightarrow> int \<Rightarrow> int \<Rightarrow> WorkoutHistory option" where
  "finishedRecord st session uuid now1 now2 =
     (case activePlan st of
        None \<Rightarrow> None
      | Some plan \<Rightarrow>
          (case activeDayId st of
             None \<Rightarrow> None
           | Some dId \<Rightarrow>
               if dId = [] then None
               else (case find (\<lambda>d. day_id d = dId) (days plan) of
                       None \<Rightarrow> None
                     | Some day \<Rightarrow>
                         (case foldl (finishStep day) (0, 0, []) (exercises session) of
                            (volume, exercisesDone, detailedExercises) \<Rightarrow>
                              Some \<lparr>wh_id = uuid,
                                    date = now1,
                                    planName = plan_name plan,
                                    dayName = day_name day,
                                    durationSeconds = (now2 - startTime session) div 1000,
                                    totalVolume = volume,
                                    exercisesCompleted = exercisesDone,
                                    wh_exercises = Some detailedExercises\<rparr>))))"

definition handleFinishWorkout ::
  "AppState \<Rightarrow> ActiveSession \<Rightarrow> string \<Rightarrow> int \<Rightarrow> int \<Rightarrow> AppState" where
  "handleFinishWorkout st session uuid now1 now2 =
     (case finishedRecord st session uuid now1 now2 of
        None \<Rightarrow> st
      | Some record \<Rightarrow>
          st\<lparr>history := record # history st,
             activePlan := None,
             activeDayId := None,
             view := STATS\<rparr>)"

text \<open>The detailed log of a record; an absent \<open>exercises\<close> field holds no entries.\<close>

definition detailOf :: "WorkoutHistory \<Rightarrow> WorkoutLogDetail list" where
  "detailOf r = (case wh_exercises r of None \<Rightarrow> [] | Some es \<Rightarrow> es)"

text \<open>All sets of a session, in entry order; and the entries that have a completed set.\<close>

definition allSets :: "ActiveSession \<Rightarrow> SetLog list" where
  "allSets session = concat (map snd (exercises session))"

definition hasCompleted :: "string \<times> SetLog list \<Rightarrow> bool" where
  "hasCompleted entry = list_ex completed (snd entry)"

section \<open>Session initializer (src/components/ActiveWorkout.tsx)\<close>

text \<open>
  \<open>findLastWeightForExercise\<close>: the \<open>for ... of\<close> loop over the history is the recursion
  over the list; each \<open>return\<close> ends it.  A record without \<open>exercises\<close>, without an entry
  of that name, or whose first entry of that name has an empty \<open>sets\<close> array is skipped.
\<close>

fun findLastWeightForExercise :: "string \<Rightarrow> WorkoutHistory list \<Rightarrow> real" where
  "findLastWeightForExercise exerciseName [] = 0"
| "findLastWeightForExercise exerciseName (record # rest) =
     (case wh_exercises record of
        None \<Rightarrow> findLastWeightForExercise exerciseName rest
      | Some es \<Rightarrow>
          (case find (\<lambda>e. name e = exerciseName) es of
             None \<Rightarrow> findLastWeightForExercise exerciseName rest
           | Some exerciseLog \<Rightarrow>
               if length (sets exerciseLog) > 0
               then (case find lg_completed (rev (sets exerciseLog)) of
                       Some lastCompletedSet \<Rightarrow> lg_weight lastCompletedSet
                     | None \<Rightarrow> lg_weight (sets exerciseLog ! (length (sets exerciseLog) - 1)))
               else findLastWeightForExercise exerciseName rest))"

text \<open>
  The same control flow, returning which of the three \<open>return\<close> statements is reached
  together with its value: the last completed set, the fallback to the last set, or the
  default after the loop.
\<close>

datatype carry = FromCompleted real | FromLastSet real | NeverPerformed

fun findLastWeightReturn :: "string \<Rightarrow> WorkoutHistory list \<Rightarrow> carry" where
  "findLastWeightReturn exerciseName [] = NeverPerformed"
| "findLastWeightReturn exerciseName (record # rest) =
     (case wh_exercises record of
        None \<Rightarrow> findLastWeightReturn exerciseName rest
      | Some es \<Rightarrow>
          (case find (\<lambda>e. name e = exerciseName) es of
             None \<Rightarrow> findLastWeightReturn exerciseName rest
           | Some exerciseLog \<Rightarrow>
               if length (sets exerciseLog) > 0
               then (case find lg_completed (rev (sets exerciseLog)) of
                       Some lastCompletedSet \<Rightarrow> FromCompleted (lg_weight lastCompletedSet)
                     | None \<Rightarrow>
                         FromLastSet (lg_weight (sets exerciseLog ! (length (sets exerciseLog) - 1))))
               else findLastWeightReturn exerciseName rest))"

fun carryValue :: "carry \<Rightarrow> real" where
  "carryValue (FromCompleted w) = w"
| "carryValue (FromLastSet w) = w"
| "carryValue NeverPerformed = 0"

text \<open>
  The initialization effect.  \<open>uuid k\<close> is the result of the \<open>k\<close>-th call of
  \<open>crypto.randomUUID()\<close> in the effect; the accumulator of \<open>day.exercises.forEach\<close> is
  \<open>initialExercises\<close>, \<open>initialLastWeights\<close> and the number of identifiers drawn so far.
\<close>

definition freshSets :: "(nat \<Rightarrow> string) \<Rightarrow> nat \<Rightarrow> nat \<Rightarrow> real \<Rightarrow> SetLog list" where
  "freshSets uuid c n lastWeight =
     map (\<lambda>i. \<lparr>sl_id = uuid (c + i), reps = 0, weight = lastWeight, completed = False\<rparr>) [0..<n]"

definition initStep ::
  "WorkoutHistory list \<Rightarrow> (nat \<Rightarrow> string)
     \<Rightarrow> (string \<times> SetLog list) list \<times> (string \<times> real) list \<times> nat \<Rightarrow> Exercise
     \<Rightarrow> (string \<times> SetLog list) list \<times> (string \<times> real) list \<times> nat" where
  "initStep hist uuid acc ex =
     (case acc of (initialExercises, initialLastWeights, c) \<Rightarrow>
        let lastWeight = findLastWeightForExercise (ex_name ex) hist
        in (AList.update (ex_id ex) (freshSets uuid c (targetSets ex) lastWeight) initialExercises,
            AList.update (ex_id ex) lastWeight initialLastWeights,
            c + targetSets ex))"

definition initialize ::
  "ActiveSession \<Rightarrow> WorkoutDay \<Rightarrow> WorkoutHistory list \<Rightarrow> (nat \<Rightarrow> string)
     \<Rightarrow> ActiveSession \<times> (string \<times> real) list" where
  "initialize prev day hist uuid =
     (case foldl (initStep hist uuid) ([], [], 0) (day_exercises day) of
        (initialExercises, initialLastWeights, c) \<Rightarrow>
          (prev\<lparr>exercises := initialExercises\<rparr>, initialLastWeights))"

text \<open>
  The carry-forward weight in the words of the specification, for comparison: the record
  looked at is the first one \<^emph>\<open>containing a detail entry\<close> of that name.  When that
  entry has no set at all, neither a last completed set nor a literal last set exists, and
  the description names no weight (\<open>None\<close>).
\<close>

definition firstEntry :: "string \<Rightarrow> WorkoutHistory \<Rightarrow> WorkoutLogDetail option" where
  "firstEntry n r = find (\<lambda>e. name e = n) (detailOf r)"

definition weightOfEntry :: "WorkoutLogDetail \<Rightarrow> real option" where
  "weightOfEntry e =
     (if filter lg_completed (sets e) \<noteq> [] then Some (lg_weight (last (filter lg_completed (sets e))))
      else if sets e \<noteq> [] then Some (lg_weight (last (sets e)))
      else None)"

definition carryForward_spec :: "string \<Rightarrow> WorkoutHistory list \<Rightarrow> real option" where
  "carryForward_spec n hist =
     (case List.map_filter (firstEntry n) hist of
        [] \<Rightarrow> Some 0
      | e # _ \<Rightarrow> weightOfEntry e)"

text \<open>
  The same with the guard of the code: only a record whose first entry of that name has
  at least one set counts as a match.
\<close>

definition usableEntry :: "string \<Rightarrow> WorkoutHistory \<Rightarrow> WorkoutLogDetail option" where
  "usableEntry n r =
     (case firstEntry n r of
        None \<Rightarrow> None
      | Some e \<Rightarrow> if sets e = [] then None else Some e)"

definition carryForward :: "string \<Rightarrow> WorkoutHistory list \<Rightarrow> real" where
  "carryForward n hist =
     (case List.map_filter (usableEntry n) hist of
        [] \<Rightarrow> 0
      | e # _ \<Rightarrow>
          (if filter lg_completed (sets e) \<noteq> [] then lg_weight (last (filter lg_completed (sets e)))
           else lg_weight (last (sets e))))"

section \<open>Session mutators (src/components/ActiveWorkout.tsx)\<close>

text \<open>
  \<open>field: keyof SetLog, value: any\<close>: the field written and its value, of the field's
  declared type.
\<close>

datatype field_value = F_id string | F_reps real | F_weight real | F_completed bool

fun setField :: "SetLog \<Rightarrow> field_value \<Rightarrow> SetLog" where
  "setField s (F_id v) = s\<lparr>sl_id := v\<rparr>"
| "setField s (F_reps v) = s\<lparr>reps := v\<rparr>"
| "setField s (F_weight v) = s\<lparr>weight := v\<rparr>"
| "setField s (F_completed v) = s\<lparr>completed := v\<rparr>"

text \<open>
  An array element after an indexed write: a complete \<open>SetLog\<close>; a hole (an index
  between the old length and the index written); or the object \<open>{[field]: value}\<close> that
  spreading \<open>undefined\<close> and adding one property gives.
\<close>

datatype slot = Elem SetLog | Hole | OnlyField field_value

text \<open>
  An array after an indexed write: its elements, and the plain properties that a write
  with a key that is not an array index leaves on the array object.  An array index is
  an integer from 0 to \<open>2^32 - 2\<close>.
\<close>

record js_array =
  elems :: "slot list"
  props :: "(int \<times> slot) list"

type_synonym RawSession = "js_array Session"

definition arrayOf :: "SetLog list \<Rightarrow> js_array" where
  "arrayOf ss = \<lparr>elems = map Elem ss, props = []\<rparr>"

definition rawOf :: "ActiveSession \<Rightarrow> RawSession" where
  "rawOf s =
     \<lparr>session_id = session_id s, planId = planId s, dayId = dayId s, startTime = startTime s,
      exercises = map (\<lambda>(k, ss). (k, arrayOf ss)) (exercises s)\<rparr>"

text \<open>\<open>prev.exercises[exerciseId] || []\<close>\<close>

definition setsOf :: "ActiveSession \<Rightarrow> string \<Rightarrow> SetLog list" where
  "setsOf prev exerciseId =
     (case map_of (exercises prev) exerciseId of Some ss \<Rightarrow> ss | None \<Rightarrow> [])"

text \<open>
  \<open>xs[i]\<close> on an array without plain properties: \<open>None\<close> is \<open>undefined\<close>, the value
  at a negative index and at an index from the length on.
\<close>

definition js_index :: "'a list \<Rightarrow> int \<Rightarrow> 'a option" where
  "js_index xs i = (if 0 \<le> i \<and> i < int (length xs) then Some (xs ! nat i) else None)"

definition isArrayIndex :: "int \<Rightarrow> bool" where
  "isArrayIndex i \<longleftrightarrow> 0 \<le> i \<and> i < 4294967295"

text \<open>
  \<open>xs[i] = v\<close> on the fresh copy \<open>[...sets]\<close>.  At an array index inside the array the
  element is replaced; at an array index past the end the array grows to length
  \<open>i + 1\<close>, with holes in between; at any other key (a negative index, or 4294967295
  and above) the elements and the length stay as they are and the value becomes a plain
  property of the array.
\<close>

definition js_assign :: "slot list \<Rightarrow> int \<Rightarrow> slot \<Rightarrow> js_array" where
  "js_assign xs i v =
     (if isArrayIndex i
      then (if nat i < length xs then \<lparr>elems = xs[nat i := v], props = []\<rparr>
            else \<lparr>elems = xs @ replicate (nat i - length xs) Hole @ [v], props = []\<rparr>)
      else \<lparr>elems = xs, props = [(i, v)]\<rparr>)"

text \<open>\<open>{...sets[setIndex], [field]: value}\<close>\<close>

fun spreadWith :: "SetLog option \<Rightarrow> field_value \<Rightarrow> slot" where
  "spreadWith None fv = OnlyField fv"
| "spreadWith (Some s) fv = Elem (setField s fv)"

definition updateSet :: "ActiveSession \<Rightarrow> string \<Rightarrow> int \<Rightarrow> field_value \<Rightarrow> RawSession" where
  "updateSet prev exerciseId setIndex fv =
     (let ss = setsOf prev exerciseId;
          ss' = js_assign (map Elem ss) setIndex (spreadWith (js_index ss setIndex) fv)
      in (rawOf prev)\<lparr>exercises := AList.update exerciseId ss' (exercises (rawOf prev))\<rparr>)"

text \<open>
  \<open>toggleComplete\<close>: reading \<open>sets[setIndex].completed\<close> of an element that does not
  exist throws a \<open>TypeError\<close> before anything is written.
\<close>

definition toggleComplete :: "ActiveSession \<Rightarrow> string \<Rightarrow> int \<Rightarrow> js_error + RawSession" where
  "toggleComplete prev exerciseId setIndex =
     (let ss = setsOf prev exerciseId
      in case js_index ss setIndex of
           None \<Rightarrow> Inl TypeError
         | Some s \<Rightarrow>
             Inr ((rawOf prev)\<lparr>exercises :=
                    AList.update exerciseId
                      (js_assign (map Elem ss) setIndex (Elem (s\<lparr>completed := \<not> completed s\<rparr>)))
                      (exercises (rawOf prev))\<rparr>))"


definition removeSet :: "ActiveSession \<Rightarrow> string \<Rightarrow> ActiveSession" where
  "removeSet prev exerciseId =
     (let currentSets = setsOf prev exerciseId
      in if length currentSets \<le> 1 then prev
         else prev\<lparr>exercises :=
                AList.update exerciseId (butlast currentSets) (exercises prev)\<rparr>)"


text \<open>Every exercise slot of the session holds at least one set.\<close>

definition everyExerciseHasSet :: "ActiveSession \<Rightarrow> bool" where
  "everyExerciseHasSet s = list_all (\<lambda>entry. snd entry \<noteq> []) (exercises s)"

section \<open>Numbers: the binary64 arithmetic of the engine\<close>

text \<open>
  An arithmetic operator of JavaScript returns the exact result rounded to the nearest
  binary64 value, ties to the value with an even significand; a rounded result of
  magnitude \<open>2^1024\<close> or more is an infinity.  \<open>round_even\<close> is the rounding of a scaled
  value to an integer; \<open>roundDouble\<close> rounds to 53 significant bits, on the fixed grid
  of spacing \<open>2^-1074\<close> below \<open>2^-1022\<close>, with no bound on the exponent above.
\<close>

definition round_even :: "real \<Rightarrow> int" where
  "round_even y =
     (let f = \<lfloor>y\<rfloor>; d = y - of_int f
      in if d < 1 / 2 then f else if 1 / 2 < d then f + 1 else if even f then f else f + 1)"

text \<open>
  The binary exponent \<open>e\<close> of a non-zero number, \<open>2^e \<le> |x| < 2^(e+1)\<close>, found by
  halving a number from 2 on and doubling a number below 1.
\<close>

function expoHigh :: "real \<Rightarrow> int" where
  "expoHigh x = (if x < 2 then 0 else expoHigh (x / 2) + 1)"
  by pat_completeness auto
termination
proof (relation "measure (\<lambda>x. nat \<lfloor>x\<rfloor>)")
  show "wf (measure (\<lambda>x. nat \<lfloor>x\<rfloor>))" by simp
next
  fix x :: real
  assume "\<not> x < 2"
  then have "x / 2 \<le> x - 1" by simp
  then have "\<lfloor>x / 2\<rfloor> \<le> \<lfloor>x - 1\<rfloor>" by (rule floor_mono)
  moreover from \<open>\<not> x < 2\<close> have "2 \<le> \<lfloor>x\<rfloor>" by (simp add: le_floor_iff)
  ultimately show "(x / 2, x) \<in> measure (\<lambda>x. nat \<lfloor>x\<rfloor>)" by simp
qed

function expoLow :: "real \<Rightarrow> int" where
  "expoLow x = (if x \<le> 0 \<or> 1 \<le> x then 0 else expoLow (2 * x) - 1)"
  by pat_completeness auto
termination
proof (relation "measure (\<lambda>x. nat \<lfloor>1 / x\<rfloor>)")
  show "wf (measure (\<lambda>x. nat \<lfloor>1 / x\<rfloor>))" by simp
next
  fix x :: real
  assume "\<not> (x \<le> 0 \<or> 1 \<le> x)"
  then have x: "0 < x" "x < 1" by simp_all
  then have y: "1 < 1 / x" by simp
  have "\<lfloor>1 / (2 * x)\<rfloor> < \<lfloor>1 / x\<rfloor>"
  proof (cases "1 / x < 2")
    case True
    then have "1 / (2 * x) < 1" by simp
    moreover from x have "0 \<le> 1 / (2 * x)" by simp
    ultimately have "\<lfloor>1 / (2 * x)\<rfloor> = 0" by (intro floor_unique) simp_all
    moreover from y have "1 \<le> \<lfloor>1 / x\<rfloor>" by (simp add: le_floor_iff)
    ultimately show ?thesis by simp
  next
    case False
    then have "1 / (2 * x) \<le> 1 / x - 1" by simp
    then have "\<lfloor>1 / (2 * x)\<rfloor> \<le> \<lfloor>1 / x - 1\<rfloor>" by (rule floor_mono)
    then show ?thesis by simp
  qed
  moreover from y have "1 \<le> \<lfloor>1 / x\<rfloor>" by (simp add: le_floor_iff)
  ultimately show "(2 * x, x) \<in> measure (\<lambda>x. nat \<lfloor>1 / x\<rfloor>)" by simp
qed

declare expoHigh.simps [simp del] expoLow.simps [simp del]

definition expo :: "real \<Rightarrow> int" where
  "expo x = (if 1 \<le> \<bar>x\<bar> then expoHigh \<bar>x\<bar> else expoLow \<bar>x\<bar>)"

definition roundDouble :: "real \<Rightarrow> real" where
  "roundDouble x =
     (if x = 0 then 0
      else let u = 2 powi (max (expo x) (- 1022) - 52)
           in u * of_int (round_even (x / u)))"

text \<open>
  The value of an operator on finite operands.  \<open>NaN\<close> does not arise in the expression
  modelled here: its operands are finite, and only its last operation can overflow.
\<close>

datatype js_number = Finite real | PosInfinity | NegInfinity

definition toNumber :: "real \<Rightarrow> js_number" where
  "toNumber x =
     (let y = roundDouble x
      in if 2 powi 1024 \<le> y then PosInfinity
         else if y \<le> - (2 powi 1024) then NegInfinity
         else Finite y)"


fun js_less :: "js_number \<Rightarrow> js_number \<Rightarrow> bool" where
  "js_less (Finite a) (Finite b) = (a < b)"
| "js_less PosInfinity b = False"
| "js_less a NegInfinity = False"
| "js_less NegInfinity (Finite b) = True"
| "js_less NegInfinity PosInfinity = True"
| "js_less (Finite a) PosInfinity = True"


section \<open>Analytics (src/components/Stats.tsx)\<close>

record StatPoint =
  p_date :: int
  maxWeight :: real
  volume :: real
  estOneRepMax :: js_number

text \<open>
  Epley formula, \<open>s.weight * (1 + s.reps / 30)\<close>: a division, an addition and a
  multiplication, each rounded.  For binary64 operands the quotient and the sum are
  finite.
\<close>

definition oneRepMax :: "real \<Rightarrow> real \<Rightarrow> js_number" where
  "oneRepMax w r = toNumber (w * roundDouble (1 + roundDouble (r / 30)))"

text \<open>
  One iteration of \<open>exData.sets.forEach\<close> on the locals \<open>maxWeight\<close>, \<open>volume\<close>,
  \<open>max1RM\<close>.
\<close>

definition setStep ::
  "real \<times> real \<times> js_number \<Rightarrow> LoggedSet \<Rightarrow> real \<times> real \<times> js_number" where
  "setStep acc s =
     (case acc of (maxW, vol, max1RM) \<Rightarrow>
        if lg_completed s
        then (if lg_weight s > maxW then lg_weight s else maxW,
              vol + lg_weight s * lg_reps s,
              if js_less max1RM (oneRepMax (lg_weight s) (lg_reps s))
              then oneRepMax (lg_weight s) (lg_reps s) else max1RM)
        else (maxW, vol, max1RM))"

text \<open>One iteration of \<open>history.forEach\<close> on the array \<open>stats\<close>.\<close>

definition statsStep :: "string \<Rightarrow> StatPoint list \<Rightarrow> WorkoutHistory \<Rightarrow> StatPoint list" where
  "statsStep selectedExercise stats h =
     (case wh_exercises h of
        None \<Rightarrow> stats
      | Some es \<Rightarrow>
          (case find (\<lambda>e. name e = selectedExercise) es of
             None \<Rightarrow> stats
           | Some exData \<Rightarrow>
               (case foldl setStep (0, 0, Finite 0) (sets exData) of
                  (maxW, vol, max1RM) \<Rightarrow>
                    if vol > 0
                    then stats @ [\<lparr>p_date = date h, maxWeight = maxW, volume = vol,
                                   estOneRepMax = max1RM\<rparr>]
                    else stats)))"

text \<open>
  \<open>stats.sort((a, b) => a.date - b.date)\<close> is a stable sort on the date, as
  \<^const>\<open>sort_key\<close> is.
\<close>

definition exerciseStats :: "WorkoutHistory list \<Rightarrow> string \<Rightarrow> StatPoint list" where
  "exerciseStats hist selectedExercise =
     (if selectedExercise = [] then []
      else sort_key p_date (foldl (statsStep selectedExercise) [] hist))"

text \<open>
  The volume a record contributes for an exercise: the sum of weight times reps over the
  completed sets of its first entry of that name.
\<close>

definition recordVolume :: "string \<Rightarrow> WorkoutHistory \<Rightarrow> real" where
  "recordVolume n r =
     (case firstEntry n r of
        None \<Rightarrow> 0
      | Some e \<Rightarrow> sum_list (map (\<lambda>s. lg_weight s * lg_reps s) (filter lg_completed (sets e))))"

text \<open>
  The point a record contributes to the series of an exercise: its date, the volume, and
  the two maxima as the loop over the sets of its first entry of that name computes them.
\<close>

definition statPoint :: "string \<Rightarrow> WorkoutHistory \<Rightarrow> StatPoint" where
  "statPoint n r =
     (let ss = (case firstEntry n r of None \<Rightarrow> [] | Some e \<Rightarrow> sets e);
          acc = foldl setStep (0, 0, Finite 0) ss
      in \<lparr>p_date = date r, maxWeight = fst acc, volume = recordVolume n r,
          estOneRepMax = snd (snd acc)\<rparr>)"

subsection \<open>Weekly activity\<close>

record Bucket =
  label :: string
  workouts :: nat
  b_volume :: real

definition weeks :: nat where
  "weeks = 4"

text \<open>The decimal numeral of a number, as the template literal \<open>`${i}w ago`\<close> prints it.\<close>

fun digitsOf :: "nat \<Rightarrow> string" where
  "digitsOf n =
     (if n < 10 then [''0123456789'' ! n]
      else digitsOf (n div 10) @ [''0123456789'' ! (n mod 10)])"

definition weekLabel :: "nat \<Rightarrow> string" where
  "weekLabel i = (if i = 0 then ''This Week'' else digitsOf i @ ''w ago'')"

definition initialData :: "Bucket list" where
  "initialData = map (\<lambda>i. \<lparr>label = weekLabel i, workouts = 0, b_volume = 0\<rparr>) [0..<weeks]"

text \<open>\<open>Math.floor(Math.floor((now - h.date) / (1000 * 60 * 60 * 24)) / 7)\<close>\<close>

definition weekIndexOf :: "int \<Rightarrow> WorkoutHistory \<Rightarrow> int" where
  "weekIndexOf now h = ((now - date h) div (1000 * 60 * 60 * 24)) div 7"

text \<open>
  One iteration of \<open>history.forEach\<close> on the array \<open>data\<close>.  A negative index passes the
  test \<open>weekIndex < weeks\<close>; \<open>data[weekIndex]\<close> is then \<open>undefined\<close> and reading its
  \<open>workouts\<close> throws.
\<close>

definition weekStep :: "int \<Rightarrow> Bucket list \<Rightarrow> WorkoutHistory \<Rightarrow> js_error + Bucket list" where
  "weekStep now data h =
     (let weekIndex = weekIndexOf now h
      in if weekIndex < int weeks
         then (if weekIndex < 0 then Inl TypeError
               else let b = data ! nat weekIndex
                    in Inr (data[nat weekIndex :=
                              b\<lparr>workouts := workouts b + 1,
                                b_volume := b_volume b + totalVolume h\<rparr>]))
         else Inr data)"

fun weeklyLoop :: "int \<Rightarrow> Bucket list \<Rightarrow> WorkoutHistory list \<Rightarrow> js_error + Bucket list" where
  "weeklyLoop now data [] = Inr data"
| "weeklyLoop now data (h # hs) =
     (case weekStep now data h of
        Inl e \<Rightarrow> Inl e
      | Inr data' \<Rightarrow> weeklyLoop now data' hs)"

definition weeklyActivity :: "int \<Rightarrow> WorkoutHistory list \<Rightarrow> js_error + Bucket list" where
  "weeklyActivity now hist =
     (case weeklyLoop now initialData hist of
        Inl e \<Rightarrow> Inl e
      | Inr data \<Rightarrow> Inr (rev data))"

text \<open>
  The count under "This Week" on the dashboard (src/App.tsx),
  \<open>history.filter(h => Date.now() - h.date < 7 * 24 * 60 * 60 * 1000).length\<close>.
\<close>

definition thisWeekCount :: "int \<Rightarrow> WorkoutHistory list \<Rightarrow> nat" where
  "thisWeekCount now hist = length (filter (\<lambda>h. now - date h < 7 * 24 * 60 * 60 * 1000) hist)"

text \<open>The records of a bucket.\<close>

definition inBucket :: "int \<Rightarrow> nat \<Rightarrow> WorkoutHistory list \<Rightarrow> WorkoutHistory list" where
  "inBucket now i hist = filter (\<lambda>h. weekIndexOf now h = int i) hist"

text \<open>
  The bucket of index \<open>i\<close>: its label, the number of its records and the sum of their
  \<open>totalVolume\<close>.
\<close>

definition weekBucket :: "int \<Rightarrow> WorkoutHistory list \<Rightarrow> nat \<Rightarrow> Bucket" where
  "weekBucket now hist i =
     \<lparr>label = weekLabel i, workouts = length (inBucket now i hist),
      b_volume = sum_list (map totalVolume (inBucket now i hist))\<rparr>"

text \<open>The element \<open>i\<close> of \<open>data\<close> after the records \<open>hs\<close> have been added to it.\<close>

definition addBucket :: "int \<Rightarrow> WorkoutHistory list \<Rightarrow> Bucket list \<Rightarrow> nat \<Rightarrow> Bucket" where
  "addBucket now hs data i =
     \<lparr>label = label (data ! i), workouts = workouts (data ! i) + length (inBucket now i hs),
      b_volume = b_volume (data ! i) + sum_list (map totalVolume (inBucket now i hs))\<rparr>"

section \<open>Histories built by the finalizer\<close>

text \<open>
  The histories that arise from the empty one by \<open>handleFinishWorkout\<close> alone, which
  prepends the finished record (or leaves the history as it is on an early return).
\<close>

inductive finalizerBuilt :: "WorkoutHistory list \<Rightarrow> bool" where
  initial: "finalizerBuilt []"
| finished: "finalizerBuilt (history st) \<Longrightarrow>
     finalizerBuilt (history (handleFinishWorkout st session uuid now1 now2))"

text \<open>Every entry of the detailed log has a set, and all its sets are completed.\<close>

definition completedLog :: "WorkoutHistory \<Rightarrow> bool" where
  "completedLog r = list_all (\<lambda>e. sets e \<noteq> [] \<and> list_all lg_completed (sets e)) (detailOf r)"

section \<open>Example data\<close>

text \<open>
  A push day of the preset plan, a session in which only the first set of the first
  exercise was logged (60 kg, 10 repetitions), and the record of finishing it 125 seconds
  after its start.
\<close>

definition exampleDay :: WorkoutDay where
  "exampleDay =
     \<lparr>day_id = ''ppl-push'', day_name = ''Push'',
      day_exercises =
        [\<lparr>ex_id = ''ex-1'', ex_name = ''Bench Press'', targetSets = 3,
          targetReps = ''8-10'', ex_notes = None\<rparr>,
         \<lparr>ex_id = ''ex-2'', ex_name = ''Overhead Press'', targetSets = 2,
          targetReps = ''8-12'', ex_notes = None\<rparr>]\<rparr>"

definition examplePlan :: TrainingPlan where
  "examplePlan =
     \<lparr>plan_id = ''preset-ppl'', plan_name = ''Push Pull Legs'', description = [],
      days = [exampleDay], isAiGenerated = None, createdAt = 0\<rparr>"

definition exampleState :: AppState where
  "exampleState =
     \<lparr>view = ACTIVE_WORKOUT, history = [], activePlan = Some examplePlan,
      activeDayId = Some ''ppl-push''\<rparr>"

definition exampleSession :: ActiveSession where
  "exampleSession =
     \<lparr>session_id = ''s-1'', planId = ''preset-ppl'', dayId = ''ppl-push'', startTime = 0,
      exercises =
        [(''ex-1'',
          [\<lparr>sl_id = ''a'', reps = 10, weight = 60, completed = True\<rparr>,
           \<lparr>sl_id = ''b'', reps = 0, weight = 0, completed = False\<rparr>,
           \<lparr>sl_id = ''c'', reps = 0, weight = 0, completed = False\<rparr>]),
         (''ex-2'',
          [\<lparr>sl_id = ''d'', reps = 8, weight = 40, completed = False\<rparr>,
           \<lparr>sl_id = ''e'', reps = 0, weight = 40, completed = False\<rparr>])]\<rparr>"

definition exampleRecord :: WorkoutHistory where
  "exampleRecord =
     \<lparr>wh_id = ''r-1'', date = 125000, planName = ''Push Pull Legs'', dayName = ''Push'',
      durationSeconds = 125, totalVolume = 600, exercisesCompleted = 1,
      wh_exercises =
        Some [\<lparr>name = ''Bench Press'',
               sets = [\<lparr>lg_weight = 60, lg_reps = 10, lg_completed = True\<rparr>]\<rparr>]\<rparr>"

text \<open>
  Two more records: one whose entry for the bench press has no set at all, and one with
  the sets (100, 8, done), (105, 6, done), (90, 10, not done).  \<open>statsHistory\<close> holds the
  three records newest first.
\<close>

definition emptyEntryRecord :: WorkoutHistory where
  "emptyEntryRecord =
     \<lparr>wh_id = ''r-3'', date = 2999000000, planName = ''Push Pull Legs'', dayName = ''Push'',
      durationSeconds = 60, totalVolume = 0, exercisesCompleted = 0,
      wh_exercises = Some [\<lparr>name = ''Bench Press'', sets = []\<rparr>]\<rparr>"

definition carryRecord :: WorkoutHistory where
  "carryRecord =
     \<lparr>wh_id = ''r-2'', date = 2000000000, planName = ''Push Pull Legs'', dayName = ''Push'',
      durationSeconds = 1800, totalVolume = 1430, exercisesCompleted = 1,
      wh_exercises =
        Some [\<lparr>name = ''Bench Press'',
               sets = [\<lparr>lg_weight = 100, lg_reps = 8, lg_completed = True\<rparr>,
                       \<lparr>lg_weight = 105, lg_reps = 6, lg_completed = True\<rparr>,
                       \<lparr>lg_weight = 90, lg_reps = 10, lg_completed = False\<rparr>]\<rparr>]\<rparr>"

definition statsHistory :: "WorkoutHistory list" where
  "statsHistory = [emptyEntryRecord, carryRecord, exampleRecord]"

definition benchPress :: Exercise where
  "benchPress =
     \<lparr>ex_id = ''ex-1'', ex_name = ''Bench Press'', targetSets = 3,
      targetReps = ''8-10'', ex_notes = None\<rparr>"

section \<open>Properties of the finalizer\<close>

lemma foldl_volume:
  "foldl (\<lambda>v s. v + weight s * reps s) v0 xs = v0 + sum_list (map (\<lambda>s. weight s * reps s) xs)"
  by (induction xs arbitrary: v0) simp_all

lemma finishStep_apply:
  "finishStep day (v, n, d) (k, ss) =
     (if filter completed ss = [] then (v, n, d)
      else (v + sum_list (map (\<lambda>s. weight s * reps s) (filter completed ss)),
            Suc n,
            d @ [\<lparr>name = exerciseNameOf day k, sets = map loggedSet (filter completed ss)\<rparr>]))"
  by (simp add: finishStep_def foldl_volume Let_def)

lemma hasCompleted_iff: "hasCompleted (k, ss) \<longleftrightarrow> filter completed ss \<noteq> []"
  by (auto simp: hasCompleted_def list_ex_iff filter_empty_conv)

lemma finishStep_fold:
  "foldl (finishStep day) (v, n, d) es =
     (v + sum_list (map (\<lambda>s. weight s * reps s) (filter completed (concat (map snd es)))),
      n + length (filter hasCompleted es),
      d @ map (\<lambda>e. \<lparr>name = exerciseNameOf day (fst e), sets = map loggedSet (filter completed (snd e))\<rparr>)
            (filter hasCompleted es))"
proof (induction es arbitrary: v n d)
  case Nil
  show ?case by simp
next
  case (Cons e es)
  obtain k ss where e: "e = (k, ss)" by (cases e)
  show ?case
    unfolding e foldl_Cons finishStep_apply
    by (simp add: Cons.IH hasCompleted_iff algebra_simps)
qed

lemma finishedRecord_SomeD:
  assumes "finishedRecord st session uuid now1 now2 = Some r"
  obtains plan dId day where
    "activePlan st = Some plan" "activeDayId st = Some dId" "dId \<noteq> []"
    "find (\<lambda>d. day_id d = dId) (days plan) = Some day"
    "totalVolume r = sum_list (map (\<lambda>s. weight s * reps s) (filter completed (allSets session)))"
    "exercisesCompleted r = length (filter hasCompleted (exercises session))"
    "wh_exercises r = Some (map (\<lambda>e. \<lparr>name = exerciseNameOf day (fst e),
                                       sets = map loggedSet (filter completed (snd e))\<rparr>)
                               (filter hasCompleted (exercises session)))"
  using assms
  by (auto simp: finishedRecord_def finishStep_fold allSets_def
           split: option.splits if_splits)

text \<open>The handler builds a record whenever the active plan and day resolve.\<close>

lemma finishedRecord_returns:
  assumes "activePlan st = Some plan" "activeDayId st = Some dId" "dId \<noteq> []"
    and "find (\<lambda>d. day_id d = dId) (days plan) = Some day"
  shows "\<exists>r. finishedRecord st session uuid now1 now2 = Some r"
  using assms by (simp add: finishedRecord_def split: prod.splits)

lemma example_finished:
  "finishedRecord exampleState exampleSession ''r-1'' 125000 125000 = Some exampleRecord"
  by (simp add: finishedRecord_def exampleState_def examplePlan_def exampleDay_def
        exampleSession_def exampleRecord_def finishStep_def exerciseNameOf_def loggedSet_def)

lemma concat_logged:
  "concat (map (\<lambda>e. map loggedSet (filter completed (snd e))) (filter hasCompleted es)) =
     map loggedSet (filter completed (concat (map snd es)))"
proof (induction es)
  case Nil
  show ?case by simp
next
  case (Cons e es)
  obtain k ss where e: "e = (k, ss)" by (cases e)
  show ?case
    by (simp add: e Cons.IH hasCompleted_iff)
qed

text \<open>
  C1.  The record of a finished session has \<open>totalVolume\<close> equal to the sum of weight
  times reps over exactly the sets whose \<open>completed\<close> flag is true when the session is
  finished, and the sets of its detailed log are exactly those sets, in order: a set
  not marked completed adds nothing to the volume and is absent from the log.
\<close>

theorem finalize_totalVolume:
  assumes "finishedRecord st session uuid now1 now2 = Some r"
  shows "totalVolume r =
           sum_list (map (\<lambda>s. weight s * reps s) (filter completed (allSets session)))
       \<and> concat (map sets (detailOf r)) = map loggedSet (filter completed (allSets session))"
proof -
  from assms obtain day where
    v: "totalVolume r =
          sum_list (map (\<lambda>s. weight s * reps s) (filter completed (allSets session)))"
    and d: "wh_exercises r =
          Some (map (\<lambda>e. \<lparr>name = exerciseNameOf day (fst e),
                           sets = map loggedSet (filter completed (snd e))\<rparr>)
                  (filter hasCompleted (exercises session)))"
    by (rule finishedRecord_SomeD)
  from d have "concat (map sets (detailOf r)) =
      concat (map (\<lambda>e. map loggedSet (filter completed (snd e)))
                (filter hasCompleted (exercises session)))"
    by (simp add: detailOf_def comp_def)
  with v show ?thesis
    by (simp add: concat_logged allSets_def)
qed

theorem finalize_totalVolume_witness:
  "finishedRecord exampleState exampleSession ''r-1'' 125000 125000 = Some exampleRecord
   \<and> totalVolume exampleRecord = 600
   \<and> concat (map sets (detailOf exampleRecord)) =
       [\<lparr>lg_weight = 60, lg_reps = 10, lg_completed = True\<rparr>]"
  using finalize_totalVolume [OF example_finished] example_finished
  by (simp add: exampleSession_def allSets_def loggedSet_def)

text \<open>
  C5.  In the record of a finished session, \<open>exercisesCompleted\<close> is the number of
  exercise slots of the session that have at least one completed set, and the detailed
  log has one entry for each of these slots, in order, holding its completed sets: an
  exercise without a completed set has no entry and is not counted.
\<close>

theorem finalize_exclusion:
  assumes "finishedRecord st session uuid now1 now2 = Some r"
  shows "exercisesCompleted r = length (filter hasCompleted (exercises session))
       \<and> length (detailOf r) = length (filter hasCompleted (exercises session))
       \<and> map sets (detailOf r) =
           map (\<lambda>e. map loggedSet (filter completed (snd e)))
             (filter hasCompleted (exercises session))"
proof -
  from assms obtain day where
    n: "exercisesCompleted r = length (filter hasCompleted (exercises session))"
    and d: "wh_exercises r =
          Some (map (\<lambda>e. \<lparr>name = exerciseNameOf day (fst e),
                           sets = map loggedSet (filter completed (snd e))\<rparr>)
                  (filter hasCompleted (exercises session)))"
    by (rule finishedRecord_SomeD)
  from n d show ?thesis
    by (simp add: detailOf_def comp_def)
qed

theorem finalize_exclusion_witness:
  "finishedRecord exampleState exampleSession ''r-1'' 125000 125000 = Some exampleRecord
   \<and> length (exercises exampleSession) = 2
   \<and> exercisesCompleted exampleRecord = 1
   \<and> length (detailOf exampleRecord) = 1"
  using finalize_exclusion [OF example_finished] example_finished
  by (simp add: exampleSession_def hasCompleted_def)

section \<open>Histories built by the finalizer hold completed sets only\<close>

lemma findLastWeight_value:
  "findLastWeightForExercise n hist = carryValue (findLastWeightReturn n hist)"
  by (induction hist) (simp_all split: option.splits)

lemma finishedRecord_completedLog:
  assumes "finishedRecord st session uuid now1 now2 = Some r"
  shows "completedLog r"
proof -
  from assms obtain day where
    d: "wh_exercises r =
          Some (map (\<lambda>e. \<lparr>name = exerciseNameOf day (fst e),
                           sets = map loggedSet (filter completed (snd e))\<rparr>)
                  (filter hasCompleted (exercises session)))"
    by (rule finishedRecord_SomeD)
  show ?thesis
    unfolding completedLog_def detailOf_def d
    by (auto simp: list_all_iff loggedSet_def hasCompleted_iff filter_empty_conv)
qed

lemma finalizerBuilt_completedLog:
  "finalizerBuilt hist \<Longrightarrow> list_all completedLog hist"
proof (induction rule: finalizerBuilt.induct)
  case initial
  show ?case by simp
next
  case (finished st session uuid now1 now2)
  show ?case
  proof (cases "finishedRecord st session uuid now1 now2")
    case None
    with finished.IH show ?thesis by (simp add: handleFinishWorkout_def)
  next
    case (Some r)
    with finished.IH finishedRecord_completedLog [OF Some] show ?thesis
      by (simp add: handleFinishWorkout_def)
  qed
qed

lemma find_rev_completed:
  "xs \<noteq> [] \<Longrightarrow> list_all lg_completed xs \<Longrightarrow> find lg_completed (rev xs) \<noteq> None"
  by (cases xs rule: rev_cases) simp_all

lemma no_fallback:
  "list_all completedLog hist \<Longrightarrow> findLastWeightReturn n hist \<noteq> FromLastSet w"
proof (induction hist)
  case Nil
  show ?case by simp
next
  case (Cons r hist)
  then have ih: "findLastWeightReturn n hist \<noteq> FromLastSet w" and r: "completedLog r"
    by simp_all
  show ?case
  proof (cases "wh_exercises r")
    case None
    with ih show ?thesis by simp
  next
    case (Some es)
    show ?thesis
    proof (cases "find (\<lambda>e. name e = n) es")
      case None
      with Some ih show ?thesis by simp
    next
      case (Some e)
      then have "e \<in> set es" by (auto simp: find_Some_iff)
      with r \<open>wh_exercises r = Some es\<close>
      have e: "sets e \<noteq> []" "list_all lg_completed (sets e)"
        by (auto simp: completedLog_def detailOf_def list_all_iff)
      from find_rev_completed [OF e] obtain s where "find lg_completed (rev (sets e)) = Some s"
        by auto
      with Some \<open>wh_exercises r = Some es\<close> e show ?thesis by simp
    qed
  qed
qed

lemma example_built: "finalizerBuilt [exampleRecord]"
proof -
  have "finalizerBuilt (history exampleState)"
    by (simp add: exampleState_def finalizerBuilt.initial)
  then have "finalizerBuilt
      (history (handleFinishWorkout exampleState exampleSession ''r-1'' 125000 125000))"
    by (rule finalizerBuilt.finished)
  moreover have "history (handleFinishWorkout exampleState exampleSession ''r-1'' 125000 125000) =
      [exampleRecord]"
    unfolding handleFinishWorkout_def example_finished
    by (simp add: exampleState_def)
  ultimately show ?thesis
    by simp
qed

text \<open>
  C10.  In a record produced by the finalizer every entry of the detailed log has a
  non-empty list of sets, all of them completed.  Hence, in a history built by the
  finalizer alone, filtering the sets of an entry on \<open>completed\<close> (as the analytics do)
  discards nothing, and \<open>findLastWeightForExercise\<close> never returns through its fallback
  to an uncompleted last set.
\<close>

theorem finalizer_log_all_completed:
  "(finishedRecord st session uuid now1 now2 = Some r \<longrightarrow>
      (\<forall>e \<in> set (detailOf r). sets e \<noteq> [] \<and> (\<forall>s \<in> set (sets e). lg_completed s)))
   \<and> (finalizerBuilt hist \<longrightarrow>
        (\<forall>h \<in> set hist. \<forall>e \<in> set (detailOf h). filter lg_completed (sets e) = sets e)
      \<and> (\<forall>n w. findLastWeightReturn n hist \<noteq> FromLastSet w))"
proof (intro conjI impI)
  assume "finishedRecord st session uuid now1 now2 = Some r"
  from finishedRecord_completedLog [OF this]
  show "\<forall>e \<in> set (detailOf r). sets e \<noteq> [] \<and> (\<forall>s \<in> set (sets e). lg_completed s)"
    by (simp add: completedLog_def list_all_iff)
next
  assume "finalizerBuilt hist"
  then have "list_all completedLog hist" by (rule finalizerBuilt_completedLog)
  then show "\<forall>h \<in> set hist. \<forall>e \<in> set (detailOf h). filter lg_completed (sets e) = sets e"
    by (simp add: completedLog_def list_all_iff)
next
  assume "finalizerBuilt hist"
  then have "list_all completedLog hist" by (rule finalizerBuilt_completedLog)
  then show "\<forall>n w. findLastWeightReturn n hist \<noteq> FromLastSet w"
    by (simp add: no_fallback)
qed

theorem finalizer_log_all_completed_witness:
  "finishedRecord exampleState exampleSession ''r-1'' 125000 125000 = Some exampleRecord
   \<and> finalizerBuilt [exampleRecord]
   \<and> map sets (detailOf exampleRecord) = [[\<lparr>lg_weight = 60, lg_reps = 10, lg_completed = True\<rparr>]]
   \<and> filter lg_completed (sets (hd (detailOf exampleRecord))) = sets (hd (detailOf exampleRecord))
   \<and> findLastWeightReturn ''Bench Press'' [exampleRecord] = FromCompleted 60
   \<and> findLastWeightReturn ''Bench Press'' [exampleRecord] \<noteq> FromLastSet 60"
  using finalizer_log_all_completed
    [of exampleState exampleSession "''r-1''" 125000 125000 exampleRecord "[exampleRecord]"]
    example_finished example_built
  by (simp add: exampleRecord_def detailOf_def)

section \<open>Properties of the session mutators\<close>

lemma list_all_update:
  "list_all P al \<Longrightarrow> P (k, v) \<Longrightarrow> list_all P (AList.update k v al)"
  by (induction al) auto

lemma removeSet_keeps_sets:
  "everyExerciseHasSet s \<Longrightarrow> everyExerciseHasSet (removeSet s e)"
proof (cases "length (setsOf s e) \<le> 1")
  case True
  assume "everyExerciseHasSet s"
  with True show ?thesis by (simp add: removeSet_def)
next
  case False
  assume inv: "everyExerciseHasSet s"
  from False have "butlast (setsOf s e) \<noteq> []"
    by (cases "setsOf s e" rule: rev_cases) auto
  with inv False show ?thesis
    by (simp add: removeSet_def everyExerciseHasSet_def list_all_update)
qed

lemma removeSet_fold_keeps_sets:
  "everyExerciseHasSet s \<Longrightarrow> everyExerciseHasSet (foldl removeSet s es)"
  by (induction es arbitrary: s) (simp_all add: removeSet_keeps_sets)

text \<open>
  C4.  \<open>removeSet\<close> leaves the session as it is when the exercise has at most one set
  (or no slot at all); otherwise it removes the last set of that exercise and changes
  no other exercise and no key.  Hence, in a session in which every exercise has at
  least one set, every exercise still has at least one set after any sequence of
  \<open>removeSet\<close> calls.
\<close>

theorem removeSet_floor:
  "(length (setsOf s e) \<le> 1 \<longrightarrow> removeSet s e = s)
   \<and> (1 < length (setsOf s e) \<longrightarrow>
        setsOf (removeSet s e) e = butlast (setsOf s e)
      \<and> (\<forall>k. k \<noteq> e \<longrightarrow> map_of (exercises (removeSet s e)) k = map_of (exercises s) k)
      \<and> map fst (exercises (removeSet s e)) = map fst (exercises s))
   \<and> (everyExerciseHasSet s \<longrightarrow> everyExerciseHasSet (foldl removeSet s es))"
proof (intro conjI impI)
  assume "length (setsOf s e) \<le> 1"
  then show "removeSet s e = s" by (simp add: removeSet_def)
next
  assume "1 < length (setsOf s e)"
  then show "setsOf (removeSet s e) e = butlast (setsOf s e)"
    by (simp add: removeSet_def setsOf_def update_conv' split: option.splits)
next
  assume "1 < length (setsOf s e)"
  then show "\<forall>k. k \<noteq> e \<longrightarrow> map_of (exercises (removeSet s e)) k = map_of (exercises s) k"
    by (simp add: removeSet_def update_conv')
next
  assume len: "1 < length (setsOf s e)"
  then have "map_of (exercises s) e \<noteq> None"
    by (auto simp: setsOf_def split: option.splits)
  then have "e \<in> fst ` set (exercises s)"
    by (simp add: map_of_eq_None_iff)
  with len show "map fst (exercises (removeSet s e)) = map fst (exercises s)"
    by (simp add: removeSet_def update_keys)
next
  assume "everyExerciseHasSet s"
  then show "everyExerciseHasSet (foldl removeSet s es)"
    by (rule removeSet_fold_keeps_sets)
qed

theorem removeSet_floor_witness:
  "length (setsOf exampleSession ''ex-2'') = 2
   \<and> setsOf (removeSet exampleSession ''ex-2'') ''ex-2'' =
       [\<lparr>sl_id = ''d'', reps = 8, weight = 40, completed = False\<rparr>]
   \<and> removeSet (removeSet exampleSession ''ex-2'') ''ex-2'' = removeSet exampleSession ''ex-2''
   \<and> everyExerciseHasSet exampleSession
   \<and> everyExerciseHasSet (foldl removeSet exampleSession [''ex-2'', ''ex-2'', ''ex-2''])"
proof -
  have a: "length (setsOf exampleSession ''ex-2'') = 2"
    by (simp add: setsOf_def exampleSession_def)
  have b: "everyExerciseHasSet exampleSession"
    by (simp add: everyExerciseHasSet_def exampleSession_def)
  have c: "setsOf exampleSession ''ex-2'' =
     [\<lparr>sl_id = ''d'', reps = 8, weight = 40, completed = False\<rparr>,
      \<lparr>sl_id = ''e'', reps = 0, weight = 40, completed = False\<rparr>]"
    by (simp add: setsOf_def exampleSession_def)
  from removeSet_floor [of exampleSession "''ex-2''" "[''ex-2'', ''ex-2'', ''ex-2'']"] a b
  have d: "setsOf (removeSet exampleSession ''ex-2'') ''ex-2'' = butlast (setsOf exampleSession ''ex-2'')"
    and e: "everyExerciseHasSet (foldl removeSet exampleSession [''ex-2'', ''ex-2'', ''ex-2''])"
    by simp_all
  from d c have f: "setsOf (removeSet exampleSession ''ex-2'') ''ex-2'' =
       [\<lparr>sl_id = ''d'', reps = 8, weight = 40, completed = False\<rparr>]"
    by simp
  with removeSet_floor [of "removeSet exampleSession ''ex-2''" "''ex-2''" "[]"]
  have "removeSet (removeSet exampleSession ''ex-2'') ''ex-2'' = removeSet exampleSession ''ex-2''"
    by simp
  with a b e f show ?thesis by simp
qed


lemma updateSet_exercises:
  "exercises (updateSet prev e i fv) =
     AList.update e
       (js_assign (map Elem (setsOf prev e)) i (spreadWith (js_index (setsOf prev e) i) fv))
       (exercises (rawOf prev))"
  by (simp add: updateSet_def Let_def)

text \<open>With an index inside the list, only the addressed field of the addressed set changes.\<close>

lemma updateSet_in_range:
  assumes "0 \<le> i" "i < int (length (setsOf prev e))" "isArrayIndex i"
  shows "exercises (updateSet prev e i fv) =
           AList.update e
             (arrayOf ((setsOf prev e)[nat i := setField (setsOf prev e ! nat i) fv]))
             (exercises (rawOf prev))"
proof -
  from assms have "nat i < length (setsOf prev e)"
    by (simp add: nat_less_iff)
  with assms show ?thesis
    by (simp add: updateSet_exercises js_index_def js_assign_def arrayOf_def map_update)
qed






text \<open>
  C8 (as amended).  Where the index addresses an existing set of the exercise,
  \<open>toggleComplete\<close> gives the session that \<open>updateSet\<close> gives for the field
  \<open>completed\<close> and the negation of the set's current value.
\<close>

theorem toggleComplete_as_updateSet:
  assumes "js_index (setsOf prev e) i = Some s"
  shows "toggleComplete prev e i = Inr (updateSet prev e i (F_completed (\<not> completed s)))"
  using assms by (simp add: toggleComplete_def updateSet_def Let_def)

theorem toggleComplete_as_updateSet_witness:
  "js_index (setsOf exampleSession ''ex-1'') 0 =
     Some \<lparr>sl_id = ''a'', reps = 10, weight = 60, completed = True\<rparr>
   \<and> toggleComplete exampleSession ''ex-1'' 0 =
       Inr (updateSet exampleSession ''ex-1'' 0 (F_completed False))"
proof -
  have a: "js_index (setsOf exampleSession ''ex-1'') 0 =
     Some \<lparr>sl_id = ''a'', reps = 10, weight = 60, completed = True\<rparr>"
    by (simp add: js_index_def setsOf_def exampleSession_def)
  from toggleComplete_as_updateSet [OF a] a
  show ?thesis by simp
qed

text \<open>
  C8 as stated fails for an index past the end: \<open>toggleComplete\<close> throws, while
  \<open>updateSet\<close> returns a session whatever value is written.
\<close>

theorem toggleComplete_counterexample:
  "toggleComplete exampleSession ''ex-2'' 2 = Inl TypeError
   \<and> toggleComplete exampleSession ''ex-2'' 2 \<noteq>
       Inr (updateSet exampleSession ''ex-2'' 2 (F_completed True))
   \<and> toggleComplete exampleSession ''ex-2'' 2 \<noteq>
       Inr (updateSet exampleSession ''ex-2'' 2 (F_completed False))"
proof -
  have "toggleComplete exampleSession ''ex-2'' 2 = Inl TypeError"
    by (simp add: toggleComplete_def js_index_def setsOf_def exampleSession_def)
  then show ?thesis by simp
qed

section \<open>Properties of the rounding\<close>






















section \<open>Properties of the analytics\<close>











lemma setStep_volume:
  "fst (snd (foldl setStep (m, v, q) ss)) =
     v + sum_list (map (\<lambda>s. lg_weight s * lg_reps s) (filter lg_completed ss))"
  by (induction ss arbitrary: m v q) (simp_all add: setStep_def)

lemma statsStep_apply:
  "statsStep n stats h =
     (if 0 < recordVolume n h then stats @ [statPoint n h] else stats)"
proof (cases "wh_exercises h")
  case None
  then show ?thesis
    by (simp add: statsStep_def recordVolume_def firstEntry_def detailOf_def)
next
  case (Some es)
  show ?thesis
  proof (cases "find (\<lambda>e. name e = n) es")
    case None
    with Some show ?thesis
      by (simp add: statsStep_def recordVolume_def firstEntry_def detailOf_def)
  next
    case (Some e)
    obtain m v q where acc: "foldl setStep (0, 0, Finite 0) (sets e) = (m, v, q)"
      by (cases "foldl setStep (0, 0, Finite 0) (sets e)")
    from setStep_volume [of 0 0 "Finite 0" "sets e"] acc
    have v: "v = sum_list (map (\<lambda>s. lg_weight s * lg_reps s) (filter lg_completed (sets e)))"
      by simp
    from Some \<open>wh_exercises h = Some es\<close> acc v show ?thesis
      by (simp add: statsStep_def recordVolume_def firstEntry_def detailOf_def statPoint_def)
  qed
qed

lemma statsStep_fold:
  "foldl (statsStep n) stats hist =
     stats @ map (statPoint n) (filter (\<lambda>r. 0 < recordVolume n r) hist)"
  by (induction hist arbitrary: stats) (simp_all add: statsStep_apply)

text \<open>
  C7.  The progression series of an exercise is sorted by ascending date, whatever the
  order of the records in the history.  Its points are those of the records that
  contribute a positive volume for the exercise: a record whose entry has no completed
  set contributes the volume 0 and no point, and every point of the series has a positive
  volume.
\<close>

theorem progression_sorted:
  "sorted (map p_date (exerciseStats hist n))
   \<and> (n \<noteq> [] \<longrightarrow>
        exerciseStats hist n =
          sort_key p_date (map (statPoint n) (filter (\<lambda>r. 0 < recordVolume n r) hist)))
   \<and> (\<forall>p \<in> set (exerciseStats hist n). 0 < volume p)"
proof (intro conjI impI)
  show "sorted (map p_date (exerciseStats hist n))"
    by (simp add: exerciseStats_def)
next
  assume "n \<noteq> []"
  then show "exerciseStats hist n =
          sort_key p_date (map (statPoint n) (filter (\<lambda>r. 0 < recordVolume n r) hist))"
    by (simp add: exerciseStats_def statsStep_fold)
next
  show "\<forall>p \<in> set (exerciseStats hist n). 0 < volume p"
    by (auto simp: exerciseStats_def statsStep_fold statPoint_def Let_def)
qed

lemma statsHistory_volumes:
  "recordVolume ''Bench Press'' emptyEntryRecord = 0"
  "recordVolume ''Bench Press'' carryRecord = 1430"
  "recordVolume ''Bench Press'' exampleRecord = 600"
  by (simp_all add: recordVolume_def firstEntry_def detailOf_def emptyEntryRecord_def
        carryRecord_def exampleRecord_def)

theorem progression_sorted_witness:
  "''Bench Press'' \<noteq> []
   \<and> map date statsHistory = [2999000000, 2000000000, 125000]
   \<and> map p_date (exerciseStats statsHistory ''Bench Press'') = [125000, 2000000000]
   \<and> map volume (exerciseStats statsHistory ''Bench Press'') = [600, 1430]
   \<and> sorted (map p_date (exerciseStats statsHistory ''Bench Press''))"
proof -
  have n: "''Bench Press'' \<noteq> []" by simp
  have d: "map date statsHistory = [2999000000, 2000000000, 125000]"
    by (simp add: statsHistory_def emptyEntryRecord_def carryRecord_def exampleRecord_def)
  have p: "p_date (statPoint n r) = date r" "volume (statPoint n r) = recordVolume n r" for n r
    by (simp_all add: statPoint_def Let_def)
  from progression_sorted [of statsHistory "''Bench Press''"] n
  have e: "exerciseStats statsHistory ''Bench Press'' =
      sort_key p_date (map (statPoint ''Bench Press'')
        (filter (\<lambda>r. 0 < recordVolume ''Bench Press'' r) statsHistory))"
    and s: "sorted (map p_date (exerciseStats statsHistory ''Bench Press''))"
    by simp_all
  have f: "filter (\<lambda>r. 0 < recordVolume ''Bench Press'' r) statsHistory = [carryRecord, exampleRecord]"
    by (simp add: statsHistory_def statsHistory_volumes)
  have g: "date carryRecord = 2000000000" "date exampleRecord = 125000"
    by (simp_all add: carryRecord_def exampleRecord_def)
  have "exerciseStats statsHistory ''Bench Press'' =
      [statPoint ''Bench Press'' exampleRecord, statPoint ''Bench Press'' carryRecord]"
    by (simp add: e f p g)
  with n d s show ?thesis
    by (simp add: p g statsHistory_volumes)
qed

lemma weekIndexOf_nonneg: "date h \<le> now \<Longrightarrow> 0 \<le> weekIndexOf now h"
  by (simp add: weekIndexOf_def pos_imp_zdiv_nonneg_iff)

lemma weekStep_in:
  assumes "date h \<le> now" "weekIndexOf now h < int weeks"
  shows "weekStep now data h =
     Inr (data[nat (weekIndexOf now h) :=
            (data ! nat (weekIndexOf now h))
              \<lparr>workouts := workouts (data ! nat (weekIndexOf now h)) + 1,
               b_volume := b_volume (data ! nat (weekIndexOf now h)) + totalVolume h\<rparr>])"
  using assms weekIndexOf_nonneg [of h now]
  by (simp add: weekStep_def Let_def)

lemma weekStep_out:
  assumes "\<not> weekIndexOf now h < int weeks"
  shows "weekStep now data h = Inr data"
  using assms by (simp add: weekStep_def Let_def)

lemma weeklyLoop_buckets:
  assumes "length data = weeks" "\<forall>h \<in> set hs. date h \<le> now"
  shows "weeklyLoop now data hs = Inr (map (addBucket now hs data) [0..<weeks])"
  using assms
proof (induction hs arbitrary: data)
  case Nil
  have "addBucket now [] data i = data ! i" for i
    by (simp add: addBucket_def inBucket_def)
  then have "map (addBucket now [] data) [0..<length data] = map ((!) data) [0..<length data]"
    by simp
  also have "\<dots> = data"
    by (rule map_nth)
  finally show ?case
    using Nil.prems(1) by simp
next
  case (Cons h hs)
  from Cons.prems have dh: "date h \<le> now" and rest: "\<forall>h \<in> set hs. date h \<le> now"
    by simp_all
  show ?case
  proof (cases "weekIndexOf now h < int weeks")
    case False
    then have "\<And>i. i < weeks \<Longrightarrow> inBucket now i (h # hs) = inBucket now i hs"
      by (auto simp: inBucket_def)
    then have "map (addBucket now (h # hs) data) [0..<weeks] = map (addBucket now hs data) [0..<weeks]"
      by (intro map_cong) (simp_all add: addBucket_def)
    with False Cons.IH [OF Cons.prems(1) rest] show ?thesis
      by (simp add: weekStep_out)
  next
    case True
    define k where "k = nat (weekIndexOf now h)"
    from True weekIndexOf_nonneg [OF dh] have k: "k < weeks" "weekIndexOf now h = int k"
      by (simp_all add: k_def)
    define data' where "data' = data[k := (data ! k)\<lparr>workouts := workouts (data ! k) + 1,
               b_volume := b_volume (data ! k) + totalVolume h\<rparr>]"
    have step: "weekStep now data h = Inr data'"
      using weekStep_in [OF dh True] by (simp add: data'_def k_def)
    have len: "length data' = weeks"
      using Cons.prems(1) by (simp add: data'_def)
    have "addBucket now hs data' i = addBucket now (h # hs) data i" if "i < weeks" for i
    proof (cases "i = k")
      case True
      with k Cons.prems(1) show ?thesis
        by (simp add: addBucket_def data'_def inBucket_def)
    next
      case False
      with k Cons.prems(1) show ?thesis
        by (simp add: addBucket_def data'_def inBucket_def)
    qed
    then have "map (addBucket now hs data') [0..<weeks] = map (addBucket now (h # hs) data) [0..<weeks]"
      by (intro map_cong) simp_all
    with step Cons.IH [OF len rest] show ?thesis
      by simp
  qed
qed

lemma addBucket_initial:
  "i < weeks \<Longrightarrow> addBucket now hist initialData i = weekBucket now hist i"
  by (simp add: addBucket_def weekBucket_def initialData_def)

text \<open>
  Where no record is dated after \<open>now\<close>, \<open>weeklyActivity\<close> returns the four buckets
  oldest first (index 3 down to index 0), where the bucket of index \<open>i\<close> counts the
  records whose index \<open>floor(floor((now - date) / 1 day) / 7)\<close> is \<open>i\<close> and sums their
  \<open>totalVolume\<close>; records of index 4 or more are in no bucket.  A record dated exactly
  seven days before \<open>now\<close> has index 1.
\<close>

lemma weeklyActivity_buckets:
  assumes "\<forall>h \<in> set hist. date h \<le> now"
  shows "weeklyActivity now hist =
           Inr [weekBucket now hist 3, weekBucket now hist 2,
                weekBucket now hist 1, weekBucket now hist 0]
       \<and> (date r = now - 7 * (1000 * 60 * 60 * 24) \<longrightarrow> weekIndexOf now r = 1)"
proof -
  have "length initialData = weeks"
    by (simp add: initialData_def)
  from weeklyLoop_buckets [OF this assms]
  have "weeklyLoop now initialData hist = Inr (map (addBucket now hist initialData) [0..<weeks])" .
  also have "map (addBucket now hist initialData) [0..<weeks] = map (weekBucket now hist) [0..<weeks]"
    by (rule map_cong) (simp_all add: addBucket_initial)
  also have "[0..<weeks] = [0, 1, 2, 3]"
    by (simp add: weeks_def upt_rec)
  finally have "weeklyActivity now hist =
           Inr [weekBucket now hist 3, weekBucket now hist 2,
                weekBucket now hist 1, weekBucket now hist 0]"
    by (simp add: weeklyActivity_def)
  moreover have "date r = now - 7 * (1000 * 60 * 60 * 24) \<longrightarrow> weekIndexOf now r = 1"
    by (simp add: weekIndexOf_def)
  ultimately show ?thesis by simp
qed

lemma statsHistory_weeks:
  "weekIndexOf 3000000000 emptyEntryRecord = 0"
  "weekIndexOf 3000000000 carryRecord = 1"
  "weekIndexOf 3000000000 exampleRecord = 4"
  by (simp_all add: weekIndexOf_def emptyEntryRecord_def carryRecord_def exampleRecord_def)

lemma weeklyActivity_buckets_example:
  "(date emptyEntryRecord \<le> 3000000000 \<and> date carryRecord \<le> 3000000000
      \<and> date exampleRecord \<le> 3000000000)
   \<and> weeklyActivity 3000000000 statsHistory =
       Inr [\<lparr>label = ''3w ago'', workouts = 0, b_volume = 0\<rparr>,
            \<lparr>label = ''2w ago'', workouts = 0, b_volume = 0\<rparr>,
            \<lparr>label = ''1w ago'', workouts = 1, b_volume = 1430\<rparr>,
            \<lparr>label = ''This Week'', workouts = 1, b_volume = 0\<rparr>]
   \<and> date (exampleRecord\<lparr>date := 3000000000 - 7 * (1000 * 60 * 60 * 24)\<rparr>) =
       3000000000 - 7 * (1000 * 60 * 60 * 24)
   \<and> weekIndexOf 3000000000 (exampleRecord\<lparr>date := 3000000000 - 7 * (1000 * 60 * 60 * 24)\<rparr>) = 1"
proof -
  have d: "date emptyEntryRecord \<le> 3000000000" "date carryRecord \<le> 3000000000"
      "date exampleRecord \<le> 3000000000"
    by (simp_all add: emptyEntryRecord_def carryRecord_def exampleRecord_def)
  then have h: "\<forall>h \<in> set statsHistory. date h \<le> 3000000000"
    by (simp add: statsHistory_def)
  have v: "totalVolume emptyEntryRecord = 0" "totalVolume carryRecord = 1430"
    by (simp_all add: emptyEntryRecord_def carryRecord_def)
  have b: "weekBucket 3000000000 statsHistory 3 = \<lparr>label = ''3w ago'', workouts = 0, b_volume = 0\<rparr>"
      "weekBucket 3000000000 statsHistory 2 = \<lparr>label = ''2w ago'', workouts = 0, b_volume = 0\<rparr>"
      "weekBucket 3000000000 statsHistory 1 = \<lparr>label = ''1w ago'', workouts = 1, b_volume = 1430\<rparr>"
      "weekBucket 3000000000 statsHistory 0 = \<lparr>label = ''This Week'', workouts = 1, b_volume = 0\<rparr>"
    by (simp_all add: weekBucket_def inBucket_def statsHistory_def statsHistory_weeks v weekLabel_def)
  from weeklyActivity_buckets
         [OF h, of "exampleRecord\<lparr>date := 3000000000 - 7 * (1000 * 60 * 60 * 24)\<rparr>"] d b
  show ?thesis by simp
qed

text \<open>
  C6.  The claim holds of every history and time; the code breaks it for a record dated
  after \<open>now\<close>.  The index of such a record is negative and passes the only test,
  \<open>weekIndex < weeks\<close>, which keeps the too-old records out but has no lower bound;
  the read of \<open>data[weekIndex].workouts\<close> then throws and no bucket is returned.  The
  dashboard counts the same record in its week.
\<close>

theorem weeklyActivity_future_record:
  "date exampleRecord = 125000
   \<and> weekIndexOf 0 exampleRecord = - 1
   \<and> weeklyActivity 0 [exampleRecord] = Inl TypeError
   \<and> thisWeekCount 0 [exampleRecord] = 1"
  by (simp add: weeklyActivity_def weekStep_def weekIndexOf_def exampleRecord_def weeks_def
        thisWeekCount_def)

section \<open>Properties of the initializer\<close>

lemma find_rev_filter:
  "find P (rev xs) = (if filter P xs = [] then None else Some (last (filter P xs)))"
  by (induction xs rule: rev_induct) simp_all

lemma map_filter_Cons:
  "List.map_filter f (x # xs) =
     (case f x of None \<Rightarrow> List.map_filter f xs | Some y \<Rightarrow> y # List.map_filter f xs)"
  by (simp add: List.map_filter_def split: option.splits)

lemma findLastWeight_carryForward:
  "findLastWeightForExercise n hist = carryForward n hist"
proof (induction hist)
  case Nil
  show ?case by (simp add: carryForward_def List.map_filter_def)
next
  case (Cons r hist)
  have ih: "findLastWeightForExercise n hist =
      (case List.map_filter (usableEntry n) hist of
        [] \<Rightarrow> 0
      | e # _ \<Rightarrow>
          (if filter lg_completed (sets e) \<noteq> [] then lg_weight (last (filter lg_completed (sets e)))
           else lg_weight (last (sets e))))"
    using Cons.IH by (simp add: carryForward_def)
  show ?case
  proof (cases "usableEntry n r")
    case None
    then have "findLastWeightForExercise n (r # hist) = findLastWeightForExercise n hist"
      by (auto simp: usableEntry_def firstEntry_def detailOf_def split: option.splits if_splits)
    with None ih show ?thesis
      by (simp add: carryForward_def map_filter_Cons)
  next
    case (Some e)
    then obtain es where es: "wh_exercises r = Some es" "find (\<lambda>e. name e = n) es = Some e"
      and ne: "sets e \<noteq> []"
      by (auto simp: usableEntry_def firstEntry_def detailOf_def split: option.splits if_splits)
    from ne have "sets e ! (length (sets e) - 1) = last (sets e)"
      by (simp add: last_conv_nth)
    with es ne Some show ?thesis
      by (simp add: carryForward_def map_filter_Cons find_rev_filter)
  qed
qed

lemma length_freshSets: "length (freshSets uuid c n w) = n"
  by (simp add: freshSets_def)

lemma set_freshSets:
  "s \<in> set (freshSets uuid c n w) \<Longrightarrow> reps s = 0 \<and> \<not> completed s \<and> weight s = w"
  by (auto simp: freshSets_def)

lemma initStep_apply:
  "initStep hist uuid (ie, ilw, c) ex =
     (AList.update (ex_id ex)
        (freshSets uuid c (targetSets ex) (findLastWeightForExercise (ex_name ex) hist)) ie,
      AList.update (ex_id ex) (findLastWeightForExercise (ex_name ex) hist) ilw,
      c + targetSets ex)"
  by (simp add: initStep_def Let_def)

lemma initFold_other:
  "k \<notin> ex_id ` set exs \<Longrightarrow>
     map_of (fst (foldl (initStep hist uuid) (ie, ilw, c) exs)) k = map_of ie k"
  by (induction exs arbitrary: ie ilw c) (simp_all add: initStep_apply update_conv')

lemma initFold_lookup:
  "distinct (map ex_id exs) \<Longrightarrow> ex \<in> set exs \<Longrightarrow>
     \<exists>c'. map_of (fst (foldl (initStep hist uuid) (ie, ilw, c) exs)) (ex_id ex) =
       Some (freshSets uuid c' (targetSets ex) (findLastWeightForExercise (ex_name ex) hist))"
proof (induction exs arbitrary: ie ilw c)
  case Nil
  then show ?case by simp
next
  case (Cons x xs)
  show ?case
  proof (cases "ex \<in> set xs")
    case True
    with Cons.prems Cons.IH [of _ _ _] show ?thesis
      by (simp add: initStep_apply)
  next
    case False
    with Cons.prems have x: "ex = x" and "ex_id x \<notin> ex_id ` set xs"
      by auto
    then show ?thesis
      by (auto simp: initStep_apply initFold_other update_conv')
  qed
qed

text \<open>
  C2 (as amended).  For a day whose exercises have distinct ids (the session is keyed
  by id), \<open>initialize\<close> maps the id of each exercise of the day to exactly
  \<open>targetSets\<close> sets with \<open>reps = 0\<close>, \<open>completed = false\<close> and the carry-forward
  weight: the weight of the last completed set of the first (newest) record whose first
  entry of that name has at least one set; the weight of the last set of that entry when
  none of its sets is completed; and 0 when no record has such an entry.
\<close>

theorem initialize_carry_forward:
  assumes "distinct (map ex_id (day_exercises day))" "ex \<in> set (day_exercises day)"
  shows "\<exists>ss. map_of (exercises (fst (initialize prev day hist uuid))) (ex_id ex) = Some ss
            \<and> length ss = targetSets ex
            \<and> (\<forall>s \<in> set ss. reps s = 0 \<and> \<not> completed s
                              \<and> weight s = carryForward (ex_name ex) hist)"
proof -
  from initFold_lookup [OF assms, of hist uuid "[]" "[]" 0] obtain c' where
    "map_of (fst (foldl (initStep hist uuid) ([], [], 0) (day_exercises day))) (ex_id ex) =
       Some (freshSets uuid c' (targetSets ex) (findLastWeightForExercise (ex_name ex) hist))"
    by blast
  moreover have "exercises (fst (initialize prev day hist uuid)) =
      fst (foldl (initStep hist uuid) ([], [], 0) (day_exercises day))"
    by (cases "foldl (initStep hist uuid) ([], [], 0) (day_exercises day)")
       (simp add: initialize_def)
  ultimately have "map_of (exercises (fst (initialize prev day hist uuid))) (ex_id ex) =
       Some (freshSets uuid c' (targetSets ex) (carryForward (ex_name ex) hist))"
    by (simp add: findLastWeight_carryForward)
  then show ?thesis
    by (auto simp: length_freshSets dest: set_freshSets)
qed

theorem initialize_carry_forward_witness:
  "distinct (map ex_id (day_exercises exampleDay))
   \<and> benchPress \<in> set (day_exercises exampleDay)
   \<and> carryForward ''Bench Press'' statsHistory = 105
   \<and> map (\<lambda>s. (reps s, weight s, completed s))
        (setsOf (fst (initialize exampleSession exampleDay statsHistory digitsOf)) ''ex-1'') =
       [(0, 105, False), (0, 105, False), (0, 105, False)]"
proof -
  have a: "distinct (map ex_id (day_exercises exampleDay))"
    by (simp add: exampleDay_def)
  have b: "benchPress \<in> set (day_exercises exampleDay)"
    by (simp add: exampleDay_def benchPress_def)
  have c: "carryForward ''Bench Press'' statsHistory = 105"
    by (simp add: carryForward_def map_filter_Cons usableEntry_def firstEntry_def detailOf_def
          statsHistory_def emptyEntryRecord_def carryRecord_def)
  have t: "targetSets benchPress = 3" "ex_id benchPress = ''ex-1''" "ex_name benchPress = ''Bench Press''"
    by (simp_all add: benchPress_def)
  from initialize_carry_forward [OF a b, of exampleSession statsHistory digitsOf]
  obtain ss where ss:
    "map_of (exercises (fst (initialize exampleSession exampleDay statsHistory digitsOf))) ''ex-1'' = Some ss"
    "length ss = 3"
    "\<forall>s \<in> set ss. reps s = 0 \<and> \<not> completed s \<and> weight s = 105"
    by (auto simp: t c)
  from ss(2) obtain s1 s2 s3 where "ss = [s1, s2, s3]"
    by (auto simp: length_Suc_conv numeral_3_eq_3)
  with ss(1,3) have "map (\<lambda>s. (reps s, weight s, completed s))
        (setsOf (fst (initialize exampleSession exampleDay statsHistory digitsOf)) ''ex-1'') =
       [(0, 105, False), (0, 105, False), (0, 105, False)]"
    by (simp add: setsOf_def)
  with a b c show ?thesis by simp
qed

text \<open>
  C2 as stated fails where the newest record containing an entry of that name has an
  entry without sets: the description names no weight there, and the code goes on to the
  older record and carries 60 forward.
\<close>

theorem initialize_carry_forward_counterexample:
  "carryForward_spec ''Bench Press'' [emptyEntryRecord, exampleRecord] = None
   \<and> findLastWeightForExercise ''Bench Press'' [emptyEntryRecord, exampleRecord] = 60
   \<and> map weight (setsOf (fst (initialize exampleSession exampleDay
                                  [emptyEntryRecord, exampleRecord] digitsOf)) ''ex-1'') =
       [60, 60, 60]"
proof -
  have a: "carryForward_spec ''Bench Press'' [emptyEntryRecord, exampleRecord] = None"
    by (simp add: carryForward_spec_def List.map_filter_def firstEntry_def detailOf_def
          emptyEntryRecord_def exampleRecord_def weightOfEntry_def)
  have b: "findLastWeightForExercise ''Bench Press'' [emptyEntryRecord, exampleRecord] = 60"
    by (simp add: emptyEntryRecord_def exampleRecord_def)
  have c: "map weight (setsOf (fst (initialize exampleSession exampleDay
                                  [emptyEntryRecord, exampleRecord] digitsOf)) ''ex-1'') =
       [60, 60, 60]"
    unfolding initialize_def exampleDay_def
    by (simp add: initStep_apply b freshSets_def setsOf_def upt_rec
          del: findLastWeightForExercise.simps)
  from a b c show ?thesis by simp
qed

end
